theory Spec2Isabelle
  imports Complex_Main "HOL-Library.Word" "HOL-Library.Sublist"
begin

section \<open>JavaScript strings\<close>

text \<open>
  A JavaScript string is a sequence of 16-bit code units; \<open>.length\<close> counts code units.
  String literals of the source are all ASCII; \<open>js\<close> embeds an ASCII literal.
\<close>

type_synonym code_unit = "16 word"
type_synonym js_string = "code_unit list"

definition js :: "string \<Rightarrow> js_string" where
  "js s = map (\<lambda>c. of_nat (of_char c)) s"

text \<open>\<open>Array.prototype.join(sep)\<close> on an array of strings.\<close>

fun join :: "js_string \<Rightarrow> js_string list \<Rightarrow> js_string" where
  "join sep [] = []"
| "join sep [x] = x"
| "join sep (x # y # ys) = x @ sep @ join sep (y # ys)"

text \<open>\<open>Array.prototype.includes(x)\<close> on an array of strings (SameValueZero is equality there).\<close>

fun array_includes :: "js_string list \<Rightarrow> js_string \<Rightarrow> bool" where
  "array_includes [] x = False"
| "array_includes (y # ys) x = (if y = x then True else array_includes ys x)"

text \<open>
  \<open>xs[0]\<close> is \<open>undefined\<close> on an empty array; \<open>v || d\<close> yields \<open>d\<close> when \<open>v\<close> is
  \<open>undefined\<close> or the empty string (both falsy).
\<close>

definition index0 :: "js_string list \<Rightarrow> js_string option" where
  "index0 xs = (case xs of [] \<Rightarrow> None | x # _ \<Rightarrow> Some x)"

definition or_else :: "js_string option \<Rightarrow> js_string \<Rightarrow> js_string" where
  "or_else v d = (case v of None \<Rightarrow> d | Some s \<Rightarrow> if s = [] then d else s)"

section \<open>CORS utilities (src/lib/cors.ts)\<close>

text \<open>\<open>origin?: string | string[] | boolean\<close>, and the other optional fields of \<open>CorsOptions\<close>.\<close>

datatype origin_spec =
    OriginBool bool
  | OriginString js_string
  | OriginArray "js_string list"

record CorsOptions =
  origin :: "origin_spec option"
  methods :: "js_string list option"
  allowedHeaders :: "js_string list option"
  credentials :: "bool option"

text \<open>The default argument \<open>{}\<close>: every field is \<open>undefined\<close>.\<close>

definition empty_options :: CorsOptions where
  "empty_options = \<lparr>origin = None, methods = None, allowedHeaders = None, credentials = None\<rparr>"

type_synonym headers = "js_string \<rightharpoonup> js_string"

definition set_origin :: "CorsOptions \<Rightarrow> headers \<Rightarrow> headers" where
  "set_origin options h =
     (case origin options of
        Some (OriginBool True) \<Rightarrow> h(js ''Access-Control-Allow-Origin'' \<mapsto> js ''*'')
      | Some (OriginString s) \<Rightarrow> h(js ''Access-Control-Allow-Origin'' \<mapsto> s)
      | Some (OriginArray xs) \<Rightarrow>
          h(js ''Access-Control-Allow-Origin'' \<mapsto> or_else (index0 xs) (js ''*''))
      | _ \<Rightarrow> h)"

definition set_methods :: "CorsOptions \<Rightarrow> headers \<Rightarrow> headers" where
  "set_methods options h =
     (case methods options of
        Some ms \<Rightarrow> h(js ''Access-Control-Allow-Methods'' \<mapsto> join (js '', '') ms)
      | None \<Rightarrow> h(js ''Access-Control-Allow-Methods'' \<mapsto> js ''GET, POST, PUT, DELETE, OPTIONS''))"

definition set_allowed_headers :: "CorsOptions \<Rightarrow> headers \<Rightarrow> headers" where
  "set_allowed_headers options h =
     (case allowedHeaders options of
        Some hs \<Rightarrow> h(js ''Access-Control-Allow-Headers'' \<mapsto> join (js '', '') hs)
      | None \<Rightarrow>
          h(js ''Access-Control-Allow-Headers'' \<mapsto> js ''Content-Type, Authorization, X-Requested-With''))"

definition set_credentials :: "CorsOptions \<Rightarrow> headers \<Rightarrow> headers" where
  "set_credentials options h =
     (if credentials options = Some True
      then h(js ''Access-Control-Allow-Credentials'' \<mapsto> js ''true'')
      else h)"

text \<open>
  \<open>getCorsHeaders(options = {})\<close>: the argument is optional; the four blocks of the body
  update the header object in the order of the source.
\<close>

definition getCorsHeaders :: "CorsOptions option \<Rightarrow> headers" where
  "getCorsHeaders arg =
     (let options = (case arg of None \<Rightarrow> empty_options | Some opts \<Rightarrow> opts)
      in set_credentials options
           (set_allowed_headers options
              (set_methods options
                 (set_origin options Map.empty))))"

text \<open>\<open>isValidOrigin\<close>: \<open>!origin\<close> holds for the empty string.\<close>

definition isValidOrigin :: "js_string \<Rightarrow> js_string list \<Rightarrow> bool" where
  "isValidOrigin org allowedOrigins =
     (if org = [] then False
      else array_includes allowedOrigins org \<or> array_includes allowedOrigins (js ''*''))"

section \<open>Content Security Policy utilities (getCSPHeader)\<close>

text \<open>
  An Isabelle string literal cannot end in an apostrophe, so a literal of the source that
  does is written with \<open>apos\<close> appended: \<open>''default-src 'self'' @ apos\<close> is the source's
  \<^verbatim>\<open>default-src 'self'\<close>.
\<close>

definition apos :: string where
  "apos = [CHR 0x27]"

text \<open>
  The second directive is the template literal
  \<^verbatim>\<open>script-src 'self' 'unsafe-eval' ${nonce ? `'nonce-${nonce}'` : "'unsafe-inline'"}\<close>.
  The optional parameter is \<open>undefined\<close> when omitted; \<open>nonce ? _ : _\<close> takes the
  second branch for \<open>undefined\<close> and for the empty string (both falsy).
\<close>

definition script_src :: "js_string option \<Rightarrow> js_string" where
  "script_src nonce =
     js ''script-src 'self' 'unsafe-eval' '' @
       (case nonce of
          None \<Rightarrow> js ('''unsafe-inline'' @ apos)
        | Some n \<Rightarrow>
            if n = [] then js ('''unsafe-inline'' @ apos)
            else js '''nonce-'' @ n @ js apos)"

definition cspDirectives :: "js_string option \<Rightarrow> js_string list" where
  "cspDirectives nonce =
     [js (''default-src 'self'' @ apos),
      script_src nonce,
      js (''style-src 'self' 'unsafe-inline'' @ apos),
      js ''img-src 'self' data: blob:'',
      js (''font-src 'self'' @ apos),
      js ''connect-src 'self' ws: wss:'',
      js (''frame-ancestors 'none'' @ apos),
      js (''base-uri 'self'' @ apos),
      js (''form-action 'self'' @ apos)]"

definition getCSPHeader :: "js_string option \<Rightarrow> js_string" where
  "getCSPHeader nonce = join (js ''; '') (cspDirectives nonce)"

section \<open>Reconnect delay (calculateBackoffDelay)\<close>

subsection \<open>JavaScript numbers\<close>

text \<open>
  A JavaScript number is an IEEE 754 binary64 value: \<open>NaN\<close>, an infinity, or a finite
  value \<open>Fin x\<close>, where \<open>x\<close> is one of the reals \<open>is_binary64\<close> describes. The two zeros
  are one value here; comparisons, \<open>Math.min\<close> on these arguments and the arithmetic below
  do not tell them apart except by the sign of a zero result.
\<close>

datatype js_number = NaN | NegInf | PosInf | Fin real

definition is_binary64 :: "real \<Rightarrow> bool" where
  "is_binary64 x =
     (\<exists>(m::nat) (k::int). m < 2 ^ 53 \<and> - 1074 \<le> k \<and> k \<le> 971
        \<and> \<bar>x\<bar> = real m * 2 powr real_of_int k)"

definition max_binary64 :: real where
  "max_binary64 = (2 ^ 53 - 1) * 2 ^ 971"

text \<open>
  Rounding to nearest, ties to even. A positive real \<open>x\<close> with \<open>2^e \<le> x < 2^(e+1)\<close> is
  rounded on the grid of spacing \<open>2^(e - 52)\<close> (of spacing \<open>2^-1074\<close> below \<open>2^-1022\<close>,
  the subnormal range); a result beyond the largest finite value is an infinity.
\<close>

definition round_half_even :: "real \<Rightarrow> int" where
  "round_half_even q =
     (let f = \<lfloor>q\<rfloor>; d = q - real_of_int f
      in if d < 1 / 2 then f else if 1 / 2 < d then f + 1 else if even f then f else f + 1)"

definition ulp_of :: "real \<Rightarrow> real" where
  "ulp_of x = 2 powr real_of_int (max \<lfloor>log 2 x\<rfloor> (- 1022) - 52)"

definition round_magnitude :: "real \<Rightarrow> real" where
  "round_magnitude x = real_of_int (round_half_even (x / ulp_of x)) * ulp_of x"

definition fp_round :: "real \<Rightarrow> js_number" where
  "fp_round x =
     (if x = 0 then Fin 0
      else if 0 < x then
        (let r = round_magnitude x in if max_binary64 < r then PosInf else Fin r)
      else
        (let r = round_magnitude (- x) in if max_binary64 < r then NegInf else Fin (- r)))"

text \<open>The operator \<open><=\<close>: false when an operand is \<open>NaN\<close>.\<close>

fun js_le :: "js_number \<Rightarrow> js_number \<Rightarrow> bool" where
  "js_le NaN b = False"
| "js_le a NaN = False"
| "js_le NegInf b = True"
| "js_le a PosInf = True"
| "js_le PosInf b = False"
| "js_le a NegInf = False"
| "js_le (Fin x) (Fin y) = (x \<le> y)"

text \<open>\<open>Math.min(a, b)\<close>: \<open>NaN\<close> when an argument is \<open>NaN\<close>, else the smaller one.\<close>

fun js_min :: "js_number \<Rightarrow> js_number \<Rightarrow> js_number" where
  "js_min NaN b = NaN"
| "js_min a NaN = NaN"
| "js_min a b = (if js_le a b then a else b)"

text \<open>
  The operators \<open>*\<close> and \<open>+\<close>: the exact result rounded; an infinity times zero and the
  sum of opposite infinities are \<open>NaN\<close>.
\<close>

fun fp_mul :: "js_number \<Rightarrow> js_number \<Rightarrow> js_number" where
  "fp_mul NaN b = NaN"
| "fp_mul a NaN = NaN"
| "fp_mul (Fin x) (Fin y) = fp_round (x * y)"
| "fp_mul (Fin x) PosInf = (if x = 0 then NaN else if 0 < x then PosInf else NegInf)"
| "fp_mul (Fin x) NegInf = (if x = 0 then NaN else if 0 < x then NegInf else PosInf)"
| "fp_mul PosInf (Fin y) = (if y = 0 then NaN else if 0 < y then PosInf else NegInf)"
| "fp_mul NegInf (Fin y) = (if y = 0 then NaN else if 0 < y then NegInf else PosInf)"
| "fp_mul PosInf PosInf = PosInf"
| "fp_mul PosInf NegInf = NegInf"
| "fp_mul NegInf PosInf = NegInf"
| "fp_mul NegInf NegInf = PosInf"

fun fp_add :: "js_number \<Rightarrow> js_number \<Rightarrow> js_number" where
  "fp_add NaN b = NaN"
| "fp_add a NaN = NaN"
| "fp_add (Fin x) (Fin y) = fp_round (x + y)"
| "fp_add PosInf NegInf = NaN"
| "fp_add NegInf PosInf = NaN"
| "fp_add PosInf b = PosInf"
| "fp_add a PosInf = PosInf"
| "fp_add NegInf b = NegInf"
| "fp_add a NegInf = NegInf"

subsection \<open>The function\<close>

text \<open>
  The host's \<open>Math\<close> object, as far as the function uses it. \<open>Math.pow\<close> returns an
  implementation-approximated number, so it is a parameter: any function on numbers.
  \<open>math_random\<close> is the number the call \<open>Math.random()\<close> returns.
\<close>

record math_obj =
  math_pow :: "js_number \<Rightarrow> js_number \<Rightarrow> js_number"
  math_random :: js_number

text \<open>
  \<^verbatim>\<open>const delay = Math.min(baseDelay * Math.pow(2, attempt), maxDelay)\<close> with
  \<open>maxDelay = 30000\<close>, and \<^verbatim>\<open>return delay + Math.random() * 1000\<close>; \<open>baseDelay\<close>
  defaults to 1000 when the argument is omitted.
\<close>

definition backoff_delay :: "math_obj \<Rightarrow> js_number \<Rightarrow> js_number \<Rightarrow> js_number" where
  "backoff_delay M attempt baseDelay =
     js_min (fp_mul baseDelay (math_pow M (Fin 2) attempt)) (Fin 30000)"

definition calculateBackoffDelay :: "math_obj \<Rightarrow> js_number \<Rightarrow> js_number option \<Rightarrow> js_number" where
  "calculateBackoffDelay M attempt baseDelayArg =
     (let baseDelay = (case baseDelayArg of None \<Rightarrow> Fin 1000 | Some b \<Rightarrow> b);
          delay = backoff_delay M attempt baseDelay
      in fp_add delay (fp_mul (math_random M) (Fin 1000)))"

text \<open>
  A host whose \<open>Math.pow\<close> returns 32 for \<open>(2, 5)\<close> and \<open>Infinity\<close> for \<open>(2, 1024)\<close>, and
  whose \<open>Math.random()\<close> returned \<open>r\<close>.
\<close>

definition example_math :: "real \<Rightarrow> math_obj" where
  "example_math r =
     \<lparr>math_pow = (\<lambda>b e. if b = Fin 2 \<and> e = Fin 5 then Fin 32
                          else if b = Fin 2 \<and> e = Fin 1024 then PosInf else NaN),
      math_random = Fin r\<rparr>"

section \<open>The execution environment\<close>

text \<open>
  The utilities probe ambient globals. The environment says which of them exist and what
  the host objects do; \<open>'w\<close> is the state of the world outside the program (whatever the
  host's storage methods read and write). A method of a host object takes the world,
  returns \<open>Inl\<close> an exception or \<open>Inr\<close> a value, and the world after the call.
\<close>

datatype js_error = ReferenceError | HostException

datatype js_value = Null | Undefined | Str js_string

type_synonym 'w effect = "'w \<Rightarrow> (js_error + js_value) \<times> 'w"

record 'w storage_obj =
  getItem :: "js_string \<Rightarrow> 'w effect"
  setItem :: "js_string \<Rightarrow> js_string \<Rightarrow> 'w effect"
  removeItem :: "js_string \<Rightarrow> 'w effect"
  clear :: "'w effect"

text \<open>
  \<open>document\<close>, as far as \<open>escapeHtml\<close> uses it: \<open>text_to_innerHTML d t\<close> is what
  \<open>innerHTML\<close> reads from a fresh \<open>div\<close> of \<open>d\<close> whose \<open>textContent\<close> was set to \<open>t\<close>.
\<close>

record document_obj =
  text_to_innerHTML :: "js_string \<Rightarrow> js_string"

text \<open>The imported module \<open>DOMPurify\<close>, as far as \<open>sanitizeHtml\<close> uses it.\<close>

record dompurify_obj =
  sanitize :: "js_string \<Rightarrow> js_string"

record 'w env =
  window_defined :: bool
  document_global :: "document_obj option"
  localStorage :: "'w storage_obj option"
  sessionStorage :: "'w storage_obj option"
  DOMPurify :: dompurify_obj

text \<open>Reading a global that is not declared throws a \<open>ReferenceError\<close>.\<close>

definition read_global :: "'a option \<Rightarrow> js_error + 'a" where
  "read_global g = (case g of None \<Rightarrow> Inl ReferenceError | Some v \<Rightarrow> Inr v)"

section \<open>Server-side rendering utilities (src/lib/ssr-utils.ts)\<close>

definition isServer :: "'w env \<Rightarrow> bool" where
  "isServer e = (\<not> window_defined e)"

definition isClient :: "'w env \<Rightarrow> bool" where
  "isClient e = window_defined e"

text \<open>
  The object literal both accessors return on the server:
  \<^verbatim>\<open>{ getItem: () => null, setItem: () => {}, removeItem: () => {}, clear: () => {} }\<close>.
  A call of an arrow function with an empty body returns \<open>undefined\<close>.
\<close>

definition noop_storage :: "'w storage_obj" where
  "noop_storage =
     \<lparr>getItem = (\<lambda>key w. (Inr Null, w)),
      setItem = (\<lambda>key val w. (Inr Undefined, w)),
      removeItem = (\<lambda>key w. (Inr Undefined, w)),
      clear = (\<lambda>w. (Inr Undefined, w))\<rparr>"

definition safeLocalStorage :: "'w env \<Rightarrow> js_error + 'w storage_obj" where
  "safeLocalStorage e =
     (if isServer e then Inr noop_storage else read_global (localStorage e))"

definition safeSessionStorage :: "'w env \<Rightarrow> js_error + 'w storage_obj" where
  "safeSessionStorage e =
     (if isServer e then Inr noop_storage else read_global (sessionStorage e))"

text \<open>A caller's use of a storage object: a sequence of method calls, stopped by an exception.\<close>

datatype storage_call =
    GetItem js_string
  | SetItem js_string js_string
  | RemoveItem js_string
  | Clear

fun invoke :: "'w storage_obj \<Rightarrow> storage_call \<Rightarrow> 'w effect" where
  "invoke obj (GetItem key) w = getItem obj key w"
| "invoke obj (SetItem key val) w = setItem obj key val w"
| "invoke obj (RemoveItem key) w = removeItem obj key w"
| "invoke obj Clear w = clear obj w"

fun run_calls :: "'w storage_obj \<Rightarrow> storage_call list \<Rightarrow> 'w \<Rightarrow> (js_error + js_value list) \<times> 'w" where
  "run_calls obj [] w = (Inr [], w)"
| "run_calls obj (c # cs) w =
     (case invoke obj c w of
        (Inl err, w') \<Rightarrow> (Inl err, w')
      | (Inr v, w') \<Rightarrow>
          (case run_calls obj cs w' of
             (Inl err, w'') \<Rightarrow> (Inl err, w'')
           | (Inr vs, w'') \<Rightarrow> (Inr (v # vs), w'')))"

text \<open>What an inert storage object answers to a call: \<open>null\<close> to \<open>getItem\<close>, \<open>undefined\<close> otherwise.\<close>

fun inert_answer :: "storage_call \<Rightarrow> js_value" where
  "inert_answer (GetItem key) = Null"
| "inert_answer (SetItem key val) = Undefined"
| "inert_answer (RemoveItem key) = Undefined"
| "inert_answer Clear = Undefined"

text \<open>A server environment: no browser global is declared.\<close>

definition server_env :: "'w env" where
  "server_env =
     \<lparr>window_defined = False, document_global = None, localStorage = None,
      sessionStorage = None, DOMPurify = \<lparr>sanitize = (\<lambda>html. [])\<rparr>\<rparr>"

section \<open>Security utilities (src/lib/security.ts)\<close>

definition sanitizeHtml :: "'w env \<Rightarrow> js_string \<Rightarrow> js_string" where
  "sanitizeHtml e html =
     (if \<not> window_defined e then html else sanitize (DOMPurify e) html)"

text \<open>\<open>escapeHtml\<close> reads the global \<open>document\<close> with no guard.\<close>

definition escapeHtml :: "'w env \<Rightarrow> js_string \<Rightarrow> js_error + js_string" where
  "escapeHtml e txt =
     (case read_global (document_global e) of
        Inl err \<Rightarrow> Inl err
      | Inr d \<Rightarrow> Inr (text_to_innerHTML d txt))"

subsection \<open>The regular expressions of \<open>validateInput\<close>\<close>

text \<open>
  All four patterns carry the flag \<open>i\<close> and not \<open>u\<close>. A pattern character then matches
  an input code unit when both have the same canonical form. On ASCII, the canonical form
  of a lower-case letter is its upper-case letter. A code unit outside ASCII never has
  an ASCII canonical form, so it matches no character of these (ASCII) patterns, as under
  the identity used here.
\<close>

definition canonicalize :: "code_unit \<Rightarrow> code_unit" where
  "canonicalize c = (if 0x61 \<le> c \<and> c \<le> 0x7A then c - 0x20 else c)"

text \<open>\<open>\w\<close> is \<open>[A-Za-z0-9_]\<close>; \<open>\s\<close> is the white space and line terminators of ECMAScript.\<close>

definition is_word_char :: "code_unit \<Rightarrow> bool" where
  "is_word_char c =
     ((0x61 \<le> c \<and> c \<le> 0x7A) \<or> (0x41 \<le> c \<and> c \<le> 0x5A) \<or> (0x30 \<le> c \<and> c \<le> 0x39) \<or> c = 0x5F)"

definition is_space :: "code_unit \<Rightarrow> bool" where
  "is_space c =
     (c = 0x09 \<or> c = 0x0A \<or> c = 0x0B \<or> c = 0x0C \<or> c = 0x0D \<or> c = 0x20 \<or> c = 0xA0
      \<or> c = 0x1680 \<or> (0x2000 \<le> c \<and> c \<le> 0x200A) \<or> c = 0x2028 \<or> c = 0x2029
      \<or> c = 0x202F \<or> c = 0x205F \<or> c = 0x3000 \<or> c = 0xFEFF)"

text \<open>
  Matching a literal pattern at the start of the input, ignoring case: the rest of the
  input after the match, or \<open>None\<close>.
\<close>

fun match_literal :: "js_string \<Rightarrow> js_string \<Rightarrow> js_string option" where
  "match_literal [] s = Some s"
| "match_literal (p # ps) [] = None"
| "match_literal (p # ps) (c # cs) =
     (if canonicalize p = canonicalize c then match_literal ps cs else None)"

text \<open>\<open>/<script/i\<close>, \<open>/javascript:/i\<close> and \<open>/data:text\/html/i\<close> at the start of the input.\<close>

definition match_script :: "js_string \<Rightarrow> bool" where
  "match_script s = (match_literal (js ''<script'') s \<noteq> None)"

definition match_javascript :: "js_string \<Rightarrow> bool" where
  "match_javascript s = (match_literal (js ''javascript:'') s \<noteq> None)"

definition match_data_html :: "js_string \<Rightarrow> bool" where
  "match_data_html s = (match_literal (js ''data:text/html'') s \<noteq> None)"

text \<open>
  \<open>/on\w+\s*=/i\<close> at the start of the input. The classes \<open>\w\<close> and \<open>\s\<close> are disjoint
  and neither holds \<open>=\<close>, so backtracking into a shorter run of either can never succeed:
  the match takes the longest run of word characters (at least one), then the longest run
  of white space, then needs \<open>=\<close>.
\<close>

definition match_handler :: "js_string \<Rightarrow> bool" where
  "match_handler s =
     (case match_literal (js ''on'') s of
        None \<Rightarrow> False
      | Some r \<Rightarrow>
          takeWhile is_word_char r \<noteq> []
          \<and> (case dropWhile is_space (dropWhile is_word_char r) of
                [] \<Rightarrow> False
              | c # _ \<Rightarrow> c = 0x3D))"

text \<open>\<open>RegExp.prototype.test\<close> (no \<open>g\<close> or \<open>y\<close> flag): a match at some start index.\<close>

fun regex_test :: "(js_string \<Rightarrow> bool) \<Rightarrow> js_string \<Rightarrow> bool" where
  "regex_test m [] = m []"
| "regex_test m (c # cs) = (m (c # cs) \<or> regex_test m cs)"

definition maliciousPatterns :: "(js_string \<Rightarrow> bool) list" where
  "maliciousPatterns = [match_script, match_javascript, match_handler, match_data_html]"

text \<open>
  \<open>validateInput(input, maxLength = 1000)\<close>. For a string, \<open>!input\<close> holds exactly for the
  empty string, and \<open>typeof input !== 'string'\<close> is false.
\<close>

definition validateInput :: "js_string \<Rightarrow> real option \<Rightarrow> bool" where
  "validateInput input maxLengthArg =
     (let maxLength = (case maxLengthArg of None \<Rightarrow> 1000 | Some m \<Rightarrow> m)
      in if input = [] then False
         else if real (length input) > maxLength then False
         else \<not> list_ex (\<lambda>pattern. regex_test pattern input) maliciousPatterns)"

section \<open>Notions of the specification\<close>

text \<open>
  Two code units are the same letter in any letter case when they are equal or one is an
  ASCII capital and the other its small letter.
\<close>

definition same_ignoring_case :: "code_unit \<Rightarrow> code_unit \<Rightarrow> bool" where
  "same_ignoring_case a b =
     (a = b \<or> (0x41 \<le> a \<and> a \<le> 0x5A \<and> b = a + 0x20) \<or> (0x41 \<le> b \<and> b \<le> 0x5A \<and> a = b + 0x20))"

text \<open>The input contains the pattern as a substring, in any letter case.\<close>

definition contains_ignoring_case :: "js_string \<Rightarrow> js_string \<Rightarrow> bool" where
  "contains_ignoring_case s pat =
     (\<exists>pre mid suf. s = pre @ mid @ suf \<and> list_all2 same_ignoring_case mid pat)"

text \<open>
  The meaning of \<open>/on\w+\s*=/i\<close> at the start of the input, with no reference to an
  evaluation order: \<open>on\<close> in any letter case, one or more word characters, any white
  space, then \<open>=\<close>.
\<close>

definition handler_language :: "js_string \<Rightarrow> bool" where
  "handler_language s =
     (\<exists>on_part ws sp rest. s = on_part @ ws @ sp @ [0x3D] @ rest
        \<and> list_all2 same_ignoring_case on_part (js ''on'')
        \<and> ws \<noteq> [] \<and> list_all is_word_char ws \<and> list_all is_space sp)"

section \<open>Facts about strings and arrays\<close>

lemma of_char_lt: "(of_char x :: nat) < 65536"
proof -
  have "(of_char x :: nat) mod 256 < 256" by (rule mod_less_divisor) simp
  then have "(of_char x :: nat) < 256" by (simp only: of_char_mod_256)
  then show ?thesis by linarith
qed

lemma js_inject: "js a = js b \<longleftrightarrow> a = b"
proof -
  have inj: "inj (\<lambda>c::char. (of_nat (of_char c) :: code_unit))"
  proof (rule injI)
    fix x y :: char
    assume eq: "(of_nat (of_char x) :: code_unit) = of_nat (of_char y)"
    have "unat (of_nat (of_char x) :: code_unit) = unat (of_nat (of_char y) :: code_unit)"
      using eq by simp
    then have "(of_char x :: nat) = of_char y"
      using of_char_lt [of x] of_char_lt [of y]
      by (simp add: unat_of_nat take_bit_nat_eq_self)
    then show "x = y" by simp
  qed
  show ?thesis
    unfolding js_def using inj by (simp add: inj_map_eq_map)
qed

lemma js_Nil_iff: "js s = [] \<longleftrightarrow> s = []"
  by (simp add: js_def)

lemma array_includes_set: "array_includes ys x \<longleftrightarrow> x \<in> set ys"
  by (induction ys) auto

section \<open>CORS headers\<close>

lemmas cors_defs =
  getCorsHeaders_def set_origin_def set_methods_def set_allowed_headers_def
  set_credentials_def empty_options_def

text \<open>What \<open>getCorsHeaders\<close> binds each of its four keys to.\<close>

lemma getCorsHeaders_origin:
  "getCorsHeaders (Some opts) (js ''Access-Control-Allow-Origin'') =
     (case origin opts of
        Some (OriginBool True) \<Rightarrow> Some (js ''*'')
      | Some (OriginString s) \<Rightarrow> Some s
      | Some (OriginArray xs) \<Rightarrow> Some (or_else (index0 xs) (js ''*''))
      | _ \<Rightarrow> None)"
  by (simp add: cors_defs js_inject split: option.split origin_spec.split bool.split)

lemma getCorsHeaders_methods:
  "getCorsHeaders (Some opts) (js ''Access-Control-Allow-Methods'') =
     Some (case methods opts of
             Some ms \<Rightarrow> join (js '', '') ms
           | None \<Rightarrow> js ''GET, POST, PUT, DELETE, OPTIONS'')"
  by (simp add: cors_defs js_inject split: option.split)

lemma getCorsHeaders_allowed_headers:
  "getCorsHeaders (Some opts) (js ''Access-Control-Allow-Headers'') =
     Some (case allowedHeaders opts of
             Some hs \<Rightarrow> join (js '', '') hs
           | None \<Rightarrow> js ''Content-Type, Authorization, X-Requested-With'')"
  by (simp add: cors_defs js_inject split: option.split)

lemma getCorsHeaders_credentials:
  "getCorsHeaders (Some opts) (js ''Access-Control-Allow-Credentials'') =
     (if credentials opts = Some True then Some (js ''true'') else None)"
  by (simp add: cors_defs js_inject split: option.split origin_spec.split bool.split)

lemma getCorsHeaders_None: "getCorsHeaders None = getCorsHeaders (Some empty_options)"
  by (simp add: getCorsHeaders_def)

lemma dom_getCorsHeaders_None:
  "dom (getCorsHeaders None) =
     {js ''Access-Control-Allow-Methods'', js ''Access-Control-Allow-Headers''}"
  by (auto simp add: cors_defs)

text \<open>
  Claim C3, as amended. For every \<open>CorsOptions\<close> whose \<open>origin\<close> is an array of strings,
  \<open>getCorsHeaders\<close> binds \<open>Access-Control-Allow-Origin\<close> to the first element of the array
  when the array is not empty and that element is not the empty string, and to the
  wildcard \<open>*\<close> otherwise.
\<close>

theorem getCorsHeaders_array_origin:
  assumes "origin opts = Some (OriginArray xs)"
  shows "getCorsHeaders (Some opts) (js ''Access-Control-Allow-Origin'') =
           Some (if xs = [] \<or> hd xs = [] then js ''*'' else hd xs)"
  using assms
  by (cases xs) (simp_all add: getCorsHeaders_origin index0_def or_else_def)

theorem getCorsHeaders_array_origin_witness:
  "getCorsHeaders
     (Some \<lparr>origin = Some (OriginArray [js ''https://a.example'', js ''https://b.example'']),
            methods = None, allowedHeaders = None, credentials = None\<rparr>)
     (js ''Access-Control-Allow-Origin'') = Some (js ''https://a.example'')"
  using getCorsHeaders_array_origin
    [of "\<lparr>origin = Some (OriginArray [js ''https://a.example'', js ''https://b.example'']),
            methods = None, allowedHeaders = None, credentials = None\<rparr>"
        "[js ''https://a.example'', js ''https://b.example'']"]
  by (simp add: js_Nil_iff)

text \<open>
  Claim C3 as stated fails: for the array \<open>["", "https://b.example"]\<close> the header is
  \<open>*\<close>, not the first element; for the empty array, which has no first element, it is
  \<open>*\<close> as well.
\<close>

theorem getCorsHeaders_array_origin_counterexample:
  "getCorsHeaders
     (Some \<lparr>origin = Some (OriginArray [js '''', js ''https://b.example'']),
            methods = None, allowedHeaders = None, credentials = None\<rparr>)
     (js ''Access-Control-Allow-Origin'')
   \<noteq> Some ([js '''', js ''https://b.example''] ! 0)
   \<and> getCorsHeaders
     (Some \<lparr>origin = Some (OriginArray [js '''', js ''https://b.example'']),
            methods = None, allowedHeaders = None, credentials = None\<rparr>)
     (js ''Access-Control-Allow-Origin'') = Some (js ''*'')
   \<and> getCorsHeaders
     (Some \<lparr>origin = Some (OriginArray []),
            methods = None, allowedHeaders = None, credentials = None\<rparr>)
     (js ''Access-Control-Allow-Origin'') = Some (js ''*'')"
  by (simp add: getCorsHeaders_origin index0_def or_else_def js_inject js_Nil_iff)

text \<open>
  Claim C5. For every \<open>CorsOptions\<close>: if \<open>origin\<close> is the boolean \<open>true\<close>, the returned
  map binds \<open>Access-Control-Allow-Origin\<close> to \<open>*\<close>; if \<open>origin\<close> is a string, it binds it
  to exactly that string; and if \<open>credentials\<close> is \<open>true\<close>, the map contains the key
  \<open>Access-Control-Allow-Credentials\<close>.
\<close>

theorem getCorsHeaders_origin_and_credentials:
  "(origin opts = Some (OriginBool True) \<longrightarrow>
      getCorsHeaders (Some opts) (js ''Access-Control-Allow-Origin'') = Some (js ''*''))
   \<and> (origin opts = Some (OriginString s) \<longrightarrow>
      getCorsHeaders (Some opts) (js ''Access-Control-Allow-Origin'') = Some s)
   \<and> (credentials opts = Some True \<longrightarrow>
      js ''Access-Control-Allow-Credentials'' \<in> dom (getCorsHeaders (Some opts)))"
  by (simp add: getCorsHeaders_origin getCorsHeaders_credentials dom_def)

theorem getCorsHeaders_origin_and_credentials_witness:
  "getCorsHeaders
     (Some \<lparr>origin = Some (OriginBool True), methods = None, allowedHeaders = None,
            credentials = Some True\<rparr>)
     (js ''Access-Control-Allow-Origin'') = Some (js ''*'')
   \<and> js ''Access-Control-Allow-Credentials'' \<in> dom (getCorsHeaders
     (Some \<lparr>origin = Some (OriginBool True), methods = None, allowedHeaders = None,
            credentials = Some True\<rparr>))
   \<and> getCorsHeaders
     (Some \<lparr>origin = Some (OriginString (js ''https://a.example'')), methods = None,
            allowedHeaders = None, credentials = None\<rparr>)
     (js ''Access-Control-Allow-Origin'') = Some (js ''https://a.example'')"
  using getCorsHeaders_origin_and_credentials
    [of "\<lparr>origin = Some (OriginBool True), methods = None, allowedHeaders = None,
            credentials = Some True\<rparr>" "[]"]
    getCorsHeaders_origin_and_credentials
    [of "\<lparr>origin = Some (OriginString (js ''https://a.example'')), methods = None,
            allowedHeaders = None, credentials = None\<rparr>" "js ''https://a.example''"]
  by simp

text \<open>
  Claim C9. For every origin string and every list of allowed origins, \<open>isValidOrigin\<close>
  returns true if and only if the origin is not empty and the list contains that exact
  origin or the wildcard string \<open>*\<close>.
\<close>

theorem isValidOrigin_iff:
  "isValidOrigin org allowedOrigins \<longleftrightarrow>
     org \<noteq> [] \<and> (org \<in> set allowedOrigins \<or> js ''*'' \<in> set allowedOrigins)"
  by (simp add: isValidOrigin_def array_includes_set)

theorem isValidOrigin_iff_witness:
  "isValidOrigin (js ''https://a.example'') [js ''https://b.example'', js ''*'']
   \<and> isValidOrigin (js ''https://a.example'') [js ''https://a.example'']
   \<and> \<not> isValidOrigin (js ''https://a.example'') [js ''https://b.example'']
   \<and> \<not> isValidOrigin (js '''') [js ''*'']"
  using isValidOrigin_iff [of "js ''https://a.example''" "[js ''https://b.example'', js ''*'']"]
    isValidOrigin_iff [of "js ''https://a.example''" "[js ''https://a.example'']"]
    isValidOrigin_iff [of "js ''https://a.example''" "[js ''https://b.example'']"]
    isValidOrigin_iff [of "js ''''" "[js ''*'']"]
  by (simp add: js_inject js_Nil_iff)

text \<open>
  Claim C10. For every \<open>CorsOptions\<close> argument, the omitted one included, the map
  \<open>getCorsHeaders\<close> returns contains the keys \<open>Access-Control-Allow-Methods\<close> and
  \<open>Access-Control-Allow-Headers\<close>; the default values stand there when the options omit
  \<open>methods\<close> or \<open>allowedHeaders\<close>; and the origin and credentials keys may be absent: with
  no argument the map has exactly the two keys.
\<close>

theorem getCorsHeaders_methods_headers_present:
  "js ''Access-Control-Allow-Methods'' \<in> dom (getCorsHeaders arg)
   \<and> js ''Access-Control-Allow-Headers'' \<in> dom (getCorsHeaders arg)
   \<and> (methods opts = None \<longrightarrow>
        getCorsHeaders (Some opts) (js ''Access-Control-Allow-Methods'') =
          Some (js ''GET, POST, PUT, DELETE, OPTIONS''))
   \<and> (allowedHeaders opts = None \<longrightarrow>
        getCorsHeaders (Some opts) (js ''Access-Control-Allow-Headers'') =
          Some (js ''Content-Type, Authorization, X-Requested-With''))
   \<and> dom (getCorsHeaders None) =
        {js ''Access-Control-Allow-Methods'', js ''Access-Control-Allow-Headers''}"
proof -
  have present: "js ''Access-Control-Allow-Methods'' \<in> dom (getCorsHeaders (Some o1))
      \<and> js ''Access-Control-Allow-Headers'' \<in> dom (getCorsHeaders (Some o1))" for o1
    by (simp add: dom_def getCorsHeaders_methods getCorsHeaders_allowed_headers)
  have "js ''Access-Control-Allow-Methods'' \<in> dom (getCorsHeaders arg)
      \<and> js ''Access-Control-Allow-Headers'' \<in> dom (getCorsHeaders arg)"
    by (cases arg) (simp_all only: getCorsHeaders_None present)
  moreover have "methods opts = None \<longrightarrow>
        getCorsHeaders (Some opts) (js ''Access-Control-Allow-Methods'') =
          Some (js ''GET, POST, PUT, DELETE, OPTIONS'')"
    by (simp add: getCorsHeaders_methods)
  moreover have "allowedHeaders opts = None \<longrightarrow>
        getCorsHeaders (Some opts) (js ''Access-Control-Allow-Headers'') =
          Some (js ''Content-Type, Authorization, X-Requested-With'')"
    by (simp add: getCorsHeaders_allowed_headers)
  ultimately show ?thesis
    using dom_getCorsHeaders_None by blast
qed

theorem getCorsHeaders_methods_headers_present_witness:
  "js ''Access-Control-Allow-Methods'' \<in> dom (getCorsHeaders (Some empty_options))
   \<and> js ''Access-Control-Allow-Headers'' \<in> dom (getCorsHeaders (Some empty_options))
   \<and> getCorsHeaders (Some empty_options) (js ''Access-Control-Allow-Methods'') =
        Some (js ''GET, POST, PUT, DELETE, OPTIONS'')
   \<and> getCorsHeaders (Some empty_options) (js ''Access-Control-Allow-Headers'') =
        Some (js ''Content-Type, Authorization, X-Requested-With'')"
  using getCorsHeaders_methods_headers_present [of "Some empty_options" empty_options]
  by (simp add: empty_options_def)

section \<open>Content Security Policy header\<close>

text \<open>The header, directive by directive: only the second one depends on the nonce.\<close>

lemma getCSPHeader_unfold:
  "getCSPHeader nonce =
     js (''default-src 'self'' @ apos) @ js ''; '' @ script_src nonce @ js ''; '' @
     js (''style-src 'self' 'unsafe-inline'' @ apos) @ js ''; '' @
     js ''img-src 'self' data: blob:'' @ js ''; '' @
     js (''font-src 'self'' @ apos) @ js ''; '' @
     js ''connect-src 'self' ws: wss:'' @ js ''; '' @
     js (''frame-ancestors 'none'' @ apos) @ js ''; '' @
     js (''base-uri 'self'' @ apos) @ js ''; '' @
     js (''form-action 'self'' @ apos)"
  by (simp add: getCSPHeader_def cspDirectives_def)

lemma getCSPHeader_default_src:
  "sublist (js (''default-src 'self'' @ apos)) (getCSPHeader nonce)"
  unfolding getCSPHeader_unfold by (rule prefix_imp_sublist) simp

lemma getCSPHeader_script_src: "sublist (script_src nonce) (getCSPHeader nonce)"
proof -
  define rest where "rest = join (js ''; '') (drop 2 (cspDirectives nonce))"
  have "getCSPHeader nonce =
      (js (''default-src 'self'' @ apos) @ js ''; '') @ script_src nonce @ (js ''; '' @ rest)"
    by (simp add: getCSPHeader_def cspDirectives_def rest_def)
  then show ?thesis
    by (simp only: sublist_appendI)
qed

lemma script_src_nonce_differs: "n \<noteq> [] \<Longrightarrow> script_src (Some n) \<noteq> script_src None"
  by (simp add: script_src_def js_def apos_def)

lemma getCSPHeader_nonce_differs: "n \<noteq> [] \<Longrightarrow> getCSPHeader (Some n) \<noteq> getCSPHeader None"
  by (simp add: getCSPHeader_unfold script_src_def js_def apos_def)

text \<open>
  Claim C8, as amended. For every optional nonce argument, the string \<open>getCSPHeader\<close>
  returns contains the directive \<^verbatim>\<open>default-src 'self'\<close> and its \<open>script-src\<close>
  directive; with no nonce that directive ends in \<^verbatim>\<open>'unsafe-inline'\<close>; and when a
  non-empty nonce is supplied, it has \<^verbatim>\<open>'nonce-<nonce>'\<close> in that place, so the
  directive and the header differ from the no-nonce case.
\<close>

theorem getCSPHeader_default_src_and_nonce:
  "sublist (js (''default-src 'self'' @ apos)) (getCSPHeader nonce)
   \<and> sublist (script_src nonce) (getCSPHeader nonce)
   \<and> script_src None = js (''script-src 'self' 'unsafe-eval' 'unsafe-inline'' @ apos)
   \<and> (n \<noteq> [] \<longrightarrow>
        script_src (Some n) = js ''script-src 'self' 'unsafe-eval' 'nonce-'' @ n @ js apos
        \<and> script_src (Some n) \<noteq> script_src None
        \<and> getCSPHeader (Some n) \<noteq> getCSPHeader None)"
proof (intro conjI impI)
  show "script_src None = js (''script-src 'self' 'unsafe-eval' 'unsafe-inline'' @ apos)"
    by (simp add: script_src_def js_def)
  show "script_src (Some n) = js ''script-src 'self' 'unsafe-eval' 'nonce-'' @ n @ js apos"
    if "n \<noteq> []"
    using that by (simp add: script_src_def js_def)
qed (simp_all only: getCSPHeader_default_src getCSPHeader_script_src
       script_src_nonce_differs getCSPHeader_nonce_differs not_False_eq_True)

theorem getCSPHeader_default_src_and_nonce_witness:
  "sublist (js (''default-src 'self'' @ apos)) (getCSPHeader (Some (js ''r4nd0m'')))
   \<and> script_src (Some (js ''r4nd0m'')) =
       js (''script-src 'self' 'unsafe-eval' 'nonce-r4nd0m'' @ apos)
   \<and> script_src (Some (js ''r4nd0m'')) \<noteq> script_src None
   \<and> getCSPHeader (Some (js ''r4nd0m'')) \<noteq> getCSPHeader None"
  using getCSPHeader_default_src_and_nonce [of "Some (js ''r4nd0m'')" "js ''r4nd0m''"]
  by (simp add: js_def)

text \<open>
  Claim C8 as stated fails: the empty string is a nonce argument, and with it the
  \<open>script-src\<close> directive and the whole header are those of the no-nonce case.
\<close>

theorem getCSPHeader_empty_nonce_counterexample:
  "script_src (Some (js '''')) = script_src None
   \<and> getCSPHeader (Some (js '''')) = getCSPHeader None"
  by (simp add: getCSPHeader_def cspDirectives_def script_src_def js_def)

section \<open>Reconnect delay\<close>

subsection \<open>Rounding\<close>

lemma round_half_even_le:
  assumes "q \<le> real_of_int N"
  shows "round_half_even q \<le> N"
proof (cases "q = real_of_int N")
  case True
  then show ?thesis by (simp add: round_half_even_def)
next
  case False
  with assms have "q < real_of_int N" by simp
  then have "\<lfloor>q\<rfloor> < N" by (simp add: floor_less_iff)
  then have "\<lfloor>q\<rfloor> + 1 \<le> N" by simp
  then show ?thesis
    by (auto simp: round_half_even_def Let_def)
qed

lemma round_half_even_of_int: "round_half_even (real_of_int N) = N"
  by (simp add: round_half_even_def)

lemma round_half_even_nonneg: "0 \<le> q \<Longrightarrow> 0 \<le> round_half_even q"
  by (auto simp: round_half_even_def Let_def)

lemma round_half_even_near:
  assumes "\<bar>q - real_of_int n\<bar> < 1 / 2"
  shows "round_half_even q = n"
proof -
  consider "real_of_int n \<le> q" | "q < real_of_int n" by linarith
  then show ?thesis
  proof cases
    case 1
    with assms have "q < real_of_int n + 1" by linarith
    with 1 have f: "\<lfloor>q\<rfloor> = n" by (simp add: floor_unique)
    with assms 1 show ?thesis by (simp add: round_half_even_def Let_def)
  next
    case 2
    with assms have "real_of_int (n - 1) \<le> q" "q < real_of_int (n - 1) + 1" by simp_all
    then have f: "\<lfloor>q\<rfloor> = n - 1" by (rule floor_unique)
    have "1 / 2 < q - real_of_int (n - 1)" using assms 2 by simp
    with f show ?thesis by (simp add: round_half_even_def Let_def)
  qed
qed

lemma ulp_of_pos: "0 < ulp_of x"
  by (simp add: ulp_of_def)

lemma exponent_le: "0 < x \<Longrightarrow> 2 powr real_of_int \<lfloor>log 2 x\<rfloor> \<le> x"
proof -
  assume x: "0 < x"
  have "2 powr real_of_int \<lfloor>log 2 x\<rfloor> \<le> 2 powr log 2 x"
    by (rule powr_mono) simp_all
  also have "2 powr log 2 x = x"
    using x by simp
  finally show ?thesis .
qed

text \<open>A binary64 value at or above a positive \<open>x\<close> lies on the grid \<open>x\<close> is rounded on.\<close>

lemma binary64_on_grid:
  assumes y: "is_binary64 y" and x: "0 < x" and xy: "x \<le> y"
  shows "\<exists>N::int. y = real_of_int N * ulp_of x"
proof -
  from y x xy obtain m :: nat and k :: int where
    m: "m < 2 ^ 53" and k: "- 1074 \<le> k" "k \<le> 971" and ym: "y = real m * 2 powr real_of_int k"
    unfolding is_binary64_def by auto
  define E where "E = max \<lfloor>log 2 x\<rfloor> (- 1022)"
  have ulp: "ulp_of x = 2 powr real_of_int (E - 52)"
    by (simp add: ulp_of_def E_def)
  show ?thesis
  proof (cases "E - 52 \<le> k")
    case True
    define j where "j = nat (k - (E - 52))"
    have kj: "k = (E - 52) + int j" using True by (simp add: j_def)
    have "2 powr real_of_int k = 2 powr real_of_int (E - 52) * 2 powr real j"
      by (subst kj) (simp add: powr_add [symmetric] algebra_simps)
    also have "2 powr real j = real_of_int (2 ^ j)"
      by (simp add: powr_realpow)
    finally have "y = real_of_int (int m * 2 ^ j) * ulp_of x"
      by (simp add: ym ulp)
    then show ?thesis by blast
  next
    case False
    then have lt: "k + 53 \<le> E" by simp
    with k have "- 1022 < E" by simp
    then have Ee: "E = \<lfloor>log 2 x\<rfloor>" by (simp add: E_def max_def split: if_splits)
    have p53: "2 powr real_of_int 53 = (2::real) ^ 53" by simp
    have "real m < real (2 ^ 53)" using m by (simp only: of_nat_less_iff)
    then have "real m < 2 powr real_of_int 53" by (simp only: p53) simp
    moreover have "0 < 2 powr real_of_int k" by simp
    ultimately have "y < 2 powr real_of_int 53 * 2 powr real_of_int k"
      unfolding ym by (rule mult_strict_right_mono)
    also have "\<dots> = 2 powr real_of_int (k + 53)"
      by (simp only: powr_add [symmetric] of_int_add add.commute)
    also have "\<dots> \<le> 2 powr real_of_int E"
      by (rule powr_mono) (use lt in simp_all)
    also have "\<dots> \<le> x"
      unfolding Ee using x by (rule exponent_le)
    finally have "y < x" .
    with xy show ?thesis by simp
  qed
qed

lemma binary64_le_max: "is_binary64 y \<Longrightarrow> \<bar>y\<bar> \<le> max_binary64"
proof -
  assume "is_binary64 y"
  then obtain m :: nat and k :: int where
    m: "m < 2 ^ 53" and k: "- 1074 \<le> k" "k \<le> 971" and ym: "\<bar>y\<bar> = real m * 2 powr real_of_int k"
    unfolding is_binary64_def by auto
  have "m \<le> 2 ^ 53 - 1" using m by simp
  then have "real m \<le> real (2 ^ 53 - 1)" by (simp only: of_nat_le_iff)
  then have m': "real m \<le> 2 ^ 53 - 1" by simp
  have "2 powr real_of_int k \<le> 2 powr real_of_int 971"
    by (rule powr_mono) (use k in simp_all)
  moreover have "2 powr real_of_int 971 = (2::real) ^ 971" by simp
  ultimately have k': "2 powr real_of_int k \<le> 2 ^ 971" by (simp only:)
  have "real m * 2 powr real_of_int k \<le> (2 ^ 53 - 1) * 2 ^ 971"
    by (rule mult_mono [OF m' k']) simp_all
  then show ?thesis by (simp add: ym max_binary64_def)
qed

lemma is_binary64_nat: "n < 2 ^ 53 \<Longrightarrow> is_binary64 (real n)"
  unfolding is_binary64_def
  by (rule exI [of _ n], rule exI [of _ 0]) simp

lemma round_magnitude_le:
  assumes "is_binary64 y" "0 < x" "x \<le> y"
  shows "round_magnitude x \<le> y"
proof -
  from binary64_on_grid [OF assms] obtain N :: int where N: "y = real_of_int N * ulp_of x" by blast
  have "x / ulp_of x \<le> real_of_int N"
    using assms(3) ulp_of_pos [of x] by (simp add: N pos_divide_le_eq)
  then have "round_half_even (x / ulp_of x) \<le> N" by (rule round_half_even_le)
  then have "real_of_int (round_half_even (x / ulp_of x)) \<le> real_of_int N" by simp
  then show ?thesis
    unfolding round_magnitude_def N using ulp_of_pos [of x]
    by (simp add: mult_right_mono)
qed

lemma round_magnitude_exact:
  assumes "is_binary64 x" "0 < x"
  shows "round_magnitude x = x"
proof -
  from binary64_on_grid [OF assms(1,2)] obtain N :: int where N: "x = real_of_int N * ulp_of x"
    by blast
  have "x / ulp_of x = real_of_int N"
    using ulp_of_pos [of x] N by (metis nonzero_eq_divide_eq less_numeral_extra(3) order_less_irrefl)
  then show ?thesis
    unfolding round_magnitude_def using N by (simp add: round_half_even_of_int)
qed

lemma round_magnitude_nonneg: "0 < x \<Longrightarrow> 0 \<le> round_magnitude x"
  unfolding round_magnitude_def using ulp_of_pos [of x]
  by (simp add: round_half_even_nonneg)

text \<open>Evaluating the rounding of a given real: its binade and the nearest grid point.\<close>

lemma round_magnitude_eval:
  assumes "2 powr real_of_int e \<le> x" "x < 2 powr real_of_int (e + 1)" "- 1022 \<le> e"
    and "\<bar>x / 2 powr real_of_int (e - 52) - real_of_int n\<bar> < 1 / 2"
  shows "round_magnitude x = real_of_int n * 2 powr real_of_int (e - 52)"
proof -
  have "0 < 2 powr real_of_int e" by simp
  with assms(1) have x: "0 < x" by linarith
  have "\<lfloor>log 2 x\<rfloor> = e"
    using assms(1,2) x by (simp add: floor_log_eq_powr_iff)
  then have "ulp_of x = 2 powr real_of_int (e - 52)"
    using assms(3) by (simp add: ulp_of_def max_def)
  then show ?thesis
    using assms(4) by (simp add: round_magnitude_def round_half_even_near)
qed

lemma fp_round_not_NaN: "fp_round x \<noteq> NaN"
  by (simp add: fp_round_def Let_def)

text \<open>A binary64 value rounds to itself.\<close>

lemma fp_round_exact: "is_binary64 x \<Longrightarrow> fp_round x = Fin x"
proof -
  assume b: "is_binary64 x"
  have bm: "is_binary64 (- x)" using b by (simp add: is_binary64_def)
  consider "x = 0" | "0 < x" | "x < 0" by linarith
  then show ?thesis
  proof cases
    case 1
    then show ?thesis by (simp add: fp_round_def)
  next
    case 2
    then show ?thesis
      using round_magnitude_exact [OF b 2] binary64_le_max [OF b]
      by (simp add: fp_round_def)
  next
    case 3
    then have "0 < - x" by simp
    from round_magnitude_exact [OF bm this] binary64_le_max [OF bm] 3
    show ?thesis by (simp add: fp_round_def)
  qed
qed

text \<open>Rounding does not cross a binary64 value: below a non-negative one, it stays below.\<close>

lemma fp_round_le:
  assumes "x \<le> y" "is_binary64 y" "0 \<le> y"
  shows "js_le (fp_round x) (Fin y)"
proof -
  consider "x = 0" | "0 < x" | "x < 0" by linarith
  then show ?thesis
  proof cases
    case 1
    then show ?thesis using assms by (simp add: fp_round_def)
  next
    case 2
    from round_magnitude_le [OF assms(2) 2 assms(1)] binary64_le_max [OF assms(2)] assms(3) 2
    show ?thesis by (simp add: fp_round_def)
  next
    case 3
    then have "0 \<le> round_magnitude (- x)" by (simp add: round_magnitude_nonneg)
    with 3 assms(3) show ?thesis by (simp add: fp_round_def Let_def)
  qed
qed

lemma fp_round_nonneg:
  assumes "0 \<le> x"
  shows "js_le (Fin 0) (fp_round x)"
proof (cases "x = 0")
  case True
  then show ?thesis by (simp add: fp_round_def)
next
  case False
  with assms have "0 < x" by simp
  then show ?thesis
    using round_magnitude_nonneg [of x] by (simp add: fp_round_def Let_def)
qed

subsection \<open>The delay\<close>

lemma jitter_term:
  assumes "0 \<le> r" "r < 1"
  shows "\<exists>j. fp_mul (Fin r) (Fin 1000) = Fin j \<and> 0 \<le> j \<and> j \<le> 1000"
proof -
  have b: "is_binary64 1000"
    using is_binary64_nat [of 1000] by simp
  have "js_le (fp_round (r * 1000)) (Fin 1000)"
    by (rule fp_round_le) (use assms b in simp_all)
  moreover have "js_le (Fin 0) (fp_round (r * 1000))"
    by (rule fp_round_nonneg) (use assms in simp)
  ultimately show ?thesis
    by (cases "fp_round (r * 1000)") simp_all
qed

lemma backoff_delay_cases:
  "backoff_delay M attempt baseDelay = NaN
   \<or> backoff_delay M attempt baseDelay = NegInf
   \<or> (\<exists>v. backoff_delay M attempt baseDelay = Fin v \<and> v \<le> 30000)"
  unfolding backoff_delay_def
  by (cases "fp_mul baseDelay (math_pow M (Fin 2) attempt)") simp_all

text \<open>The function at three inputs: an ordinary one, one that attains 31000, one that gives \<open>NaN\<close>.\<close>

lemma calculateBackoffDelay_at_half:
  "calculateBackoffDelay (example_math (1 / 2)) (Fin 5) (Some (Fin 1000)) = Fin 30500"
proof -
  have a: "fp_round 32000 = Fin 32000" "fp_round 500 = Fin 500" "fp_round 30500 = Fin 30500"
    using is_binary64_nat [of 32000] is_binary64_nat [of 500] is_binary64_nat [of 30500]
    by (simp_all add: fp_round_exact)
  show ?thesis
    by (simp add: calculateBackoffDelay_def backoff_delay_def example_math_def a)
qed

lemma jitter_near_one:
  "fp_round ((1 - 1 / 2 ^ 52) * 1000) = Fin (1000 - 1 / 2 ^ 42)"
proof -
  have "round_magnitude ((1 - 1 / 2 ^ 52) * 1000) =
      real_of_int 8796093022207998 * 2 powr real_of_int (9 - 52)"
    by (rule round_magnitude_eval) (simp_all add: powr_minus)
  also have "\<dots> = 1000 - 1 / 2 ^ 42"
    by (simp add: powr_minus)
  finally have "round_magnitude ((1 - 1 / 2 ^ 52) * 1000) = 1000 - 1 / 2 ^ 42" .
  then show ?thesis
    by (simp add: fp_round_def max_binary64_def)
qed

lemma sum_near_31000:
  "fp_round (30000 + (1000 - 1 / 2 ^ 42)) = Fin 31000"
proof -
  have "round_magnitude (30000 + (1000 - 1 / 2 ^ 42)) =
      real_of_int 8521215115264000 * 2 powr real_of_int (14 - 52)"
    by (rule round_magnitude_eval) (simp_all add: powr_minus)
  also have "\<dots> = 31000"
    by (simp add: powr_minus)
  finally have "round_magnitude (30000 + (1000 - 1 / 2 ^ 42)) = 31000" .
  then show ?thesis
    by (simp add: fp_round_def max_binary64_def)
qed

lemma calculateBackoffDelay_attains_31000:
  "calculateBackoffDelay (example_math (1 - 1 / 2 ^ 52)) (Fin 5) (Some (Fin 1000)) = Fin 31000"
proof -
  have a: "fp_round 32000 = Fin 32000"
    using is_binary64_nat [of 32000] by (simp add: fp_round_exact)
  show ?thesis
    using jitter_near_one sum_near_31000
    by (simp add: calculateBackoffDelay_def backoff_delay_def example_math_def a)
qed

lemma calculateBackoffDelay_NaN_example:
  "calculateBackoffDelay (example_math (1 / 2)) (Fin 1024) (Some (Fin 0)) = NaN"
  by (simp add: calculateBackoffDelay_def backoff_delay_def example_math_def)

text \<open>
  Claim C2, as amended. For every attempt number, every base delay and every jitter value
  drawn from \<open>[0, 1)\<close>, whatever \<open>Math.pow\<close> returns: the delay before jitter,
  \<open>Math.min(baseDelay * Math.pow(2, attempt), 30000)\<close>, is \<open>NaN\<close> or at most 30000
  milliseconds; the delay \<open>calculateBackoffDelay\<close> returns is \<open>NaN\<close> exactly when the delay
  before jitter is; and otherwise the returned delay is at most 31000 milliseconds (the
  cap plus a jitter term of at most 1000).
\<close>

theorem calculateBackoffDelay_bounds:
  assumes "math_random M = Fin r" and "0 \<le> r" and "r < 1"
  shows "(backoff_delay M attempt (case baseDelayArg of None \<Rightarrow> Fin 1000 | Some b \<Rightarrow> b) = NaN
        \<or> js_le (backoff_delay M attempt (case baseDelayArg of None \<Rightarrow> Fin 1000 | Some b \<Rightarrow> b))
             (Fin 30000))
    \<and> (calculateBackoffDelay M attempt baseDelayArg = NaN \<longleftrightarrow>
          backoff_delay M attempt (case baseDelayArg of None \<Rightarrow> Fin 1000 | Some b \<Rightarrow> b) = NaN)
    \<and> (calculateBackoffDelay M attempt baseDelayArg = NaN
        \<or> js_le (calculateBackoffDelay M attempt baseDelayArg) (Fin 31000))"
proof -
  define d where "d = backoff_delay M attempt (case baseDelayArg of None \<Rightarrow> Fin 1000 | Some b \<Rightarrow> b)"
  from jitter_term [OF assms(2,3)] obtain j where
    j: "fp_mul (Fin r) (Fin 1000) = Fin j" "0 \<le> j" "j \<le> 1000" by blast
  have res: "calculateBackoffDelay M attempt baseDelayArg = fp_add d (Fin j)"
    unfolding calculateBackoffDelay_def Let_def d_def assms(1) j(1) ..
  have b: "is_binary64 31000"
    using is_binary64_nat [of 31000] by simp
  from backoff_delay_cases [of M attempt "case baseDelayArg of None \<Rightarrow> Fin 1000 | Some b \<Rightarrow> b"]
  consider "d = NaN" | "d = NegInf" | v where "d = Fin v" "v \<le> 30000"
    unfolding d_def by blast
  then have "(d = NaN \<or> js_le d (Fin 30000))
      \<and> (fp_add d (Fin j) = NaN \<longleftrightarrow> d = NaN)
      \<and> (fp_add d (Fin j) = NaN \<or> js_le (fp_add d (Fin j)) (Fin 31000))"
  proof cases
    case 1
    then show ?thesis by simp
  next
    case 2
    then show ?thesis by simp
  next
    case 3
    have "js_le (fp_round (v + j)) (Fin 31000)"
      by (rule fp_round_le) (use 3(2) j(3) b in simp_all)
    then show ?thesis using 3 by (simp add: fp_round_not_NaN)
  qed
  then show ?thesis
    unfolding res d_def .
qed

theorem calculateBackoffDelay_bounds_witness:
  "math_random (example_math (1 / 2)) = Fin (1 / 2) \<and> (0::real) \<le> 1 / 2 \<and> (1 / 2 :: real) < 1
   \<and> calculateBackoffDelay (example_math (1 / 2)) (Fin 5) (Some (Fin 1000)) = Fin 30500
   \<and> js_le (calculateBackoffDelay (example_math (1 / 2)) (Fin 5) (Some (Fin 1000))) (Fin 31000)
   \<and> calculateBackoffDelay (example_math (1 - 1 / 2 ^ 52)) (Fin 5) (Some (Fin 1000)) = Fin 31000
   \<and> js_le (calculateBackoffDelay (example_math (1 - 1 / 2 ^ 52)) (Fin 5) (Some (Fin 1000)))
        (Fin 31000)"
proof -
  have r1: "math_random (example_math (1 / 2)) = Fin (1 / 2)"
    and r2: "math_random (example_math (1 - 1 / 2 ^ 52)) = Fin (1 - 1 / 2 ^ 52)"
    by (simp_all add: example_math_def)
  have h1: "(0::real) \<le> 1 / 2" and h2: "(1 / 2 :: real) < 1"
    and h3: "(0::real) \<le> 1 - 1 / 2 ^ 52" and h4: "(1 - 1 / 2 ^ 52 :: real) < 1"
    by simp_all
  have "calculateBackoffDelay (example_math (1 / 2)) (Fin 5) (Some (Fin 1000)) = NaN
      \<or> js_le (calculateBackoffDelay (example_math (1 / 2)) (Fin 5) (Some (Fin 1000))) (Fin 31000)"
    using calculateBackoffDelay_bounds [OF r1 h1 h2, of "Fin 5" "Some (Fin 1000)"] by blast
  then have w1:
    "js_le (calculateBackoffDelay (example_math (1 / 2)) (Fin 5) (Some (Fin 1000))) (Fin 31000)"
    by (simp only: calculateBackoffDelay_at_half js_number.distinct simp_thms)
  have "calculateBackoffDelay (example_math (1 - 1 / 2 ^ 52)) (Fin 5) (Some (Fin 1000)) = NaN
      \<or> js_le (calculateBackoffDelay (example_math (1 - 1 / 2 ^ 52)) (Fin 5) (Some (Fin 1000)))
           (Fin 31000)"
    using calculateBackoffDelay_bounds [OF r2 h3 h4, of "Fin 5" "Some (Fin 1000)"] by blast
  then have w2:
    "js_le (calculateBackoffDelay (example_math (1 - 1 / 2 ^ 52)) (Fin 5) (Some (Fin 1000)))
       (Fin 31000)"
    by (simp only: calculateBackoffDelay_attains_31000 js_number.distinct simp_thms)
  show ?thesis
    by (intro conjI r1 h1 h2 calculateBackoffDelay_at_half w1
          calculateBackoffDelay_attains_31000 w2)
qed

text \<open>
  Claim C2 as stated fails. At attempt 5 with base delay 1000 the delay before jitter is
  the cap, 30000, and with jitter value 1/2 the function returns 30500. At attempt 1024
  with base delay 0 the product is zero times \<open>Infinity\<close>, and the function returns \<open>NaN\<close>,
  which is not at most 30000 either.
\<close>

theorem calculateBackoffDelay_exceeds_cap_counterexample:
  "math_random (example_math (1 / 2)) = Fin (1 / 2) \<and> (0::real) \<le> 1 / 2 \<and> (1 / 2 :: real) < 1
   \<and> calculateBackoffDelay (example_math (1 / 2)) (Fin 5) (Some (Fin 1000)) = Fin 30500
   \<and> \<not> js_le (calculateBackoffDelay (example_math (1 / 2)) (Fin 5) (Some (Fin 1000))) (Fin 30000)
   \<and> calculateBackoffDelay (example_math (1 / 2)) (Fin 1024) (Some (Fin 0)) = NaN
   \<and> \<not> js_le (calculateBackoffDelay (example_math (1 / 2)) (Fin 1024) (Some (Fin 0))) (Fin 30000)"
proof -
  have r1: "math_random (example_math (1 / 2)) = Fin (1 / 2)"
    by (simp add: example_math_def)
  have h1: "(0::real) \<le> 1 / 2" and h2: "(1 / 2 :: real) < 1"
    by simp_all
  have c1:
    "\<not> js_le (calculateBackoffDelay (example_math (1 / 2)) (Fin 5) (Some (Fin 1000))) (Fin 30000)"
    by (simp add: calculateBackoffDelay_at_half)
  have c2:
    "\<not> js_le (calculateBackoffDelay (example_math (1 / 2)) (Fin 1024) (Some (Fin 0))) (Fin 30000)"
    by (simp add: calculateBackoffDelay_NaN_example)
  show ?thesis
    by (intro conjI r1 h1 h2 calculateBackoffDelay_at_half c1
          calculateBackoffDelay_NaN_example c2)
qed

section \<open>Environment guards\<close>

lemma invoke_noop_storage: "invoke noop_storage c w = (Inr (inert_answer c), w)"
  by (cases c) (simp_all add: noop_storage_def)

lemma run_calls_noop_storage:
  "run_calls noop_storage calls w = (Inr (map inert_answer calls), w)"
  by (induction calls arbitrary: w) (simp_all add: invoke_noop_storage)

text \<open>
  Claim C7. Outside a browser context (\<open>window\<close> undefined), \<open>safeLocalStorage\<close> and
  \<open>safeSessionStorage\<close> throw nothing and return an object with \<open>getItem\<close>, \<open>setItem\<close>,
  \<open>removeItem\<close> and \<open>clear\<close>; \<open>getItem\<close> always returns \<open>null\<close>; and every sequence of
  calls on the object runs to its end without an exception, answers \<open>null\<close> to each
  \<open>getItem\<close> and \<open>undefined\<close> to each other call, and leaves the world as it was.
\<close>

theorem safe_storage_inert_on_server:
  assumes "\<not> window_defined e"
  shows "\<exists>ls ss. safeLocalStorage e = Inr ls \<and> safeSessionStorage e = Inr ss
           \<and> (\<forall>key w. getItem ls key w = (Inr Null, w) \<and> getItem ss key w = (Inr Null, w))
           \<and> (\<forall>calls w. run_calls ls calls w = (Inr (map inert_answer calls), w)
                       \<and> run_calls ss calls w = (Inr (map inert_answer calls), w))"
proof (intro exI conjI allI)
  show "safeLocalStorage e = Inr noop_storage"
    using assms by (simp add: safeLocalStorage_def isServer_def)
  show "safeSessionStorage e = Inr noop_storage"
    using assms by (simp add: safeSessionStorage_def isServer_def)
qed (simp_all only: run_calls_noop_storage, simp_all add: noop_storage_def)

theorem safe_storage_inert_on_server_witness:
  "(case safeLocalStorage (server_env :: nat env) of
      Inl err \<Rightarrow> False
    | Inr ls \<Rightarrow>
        run_calls ls [SetItem (js ''k'') (js ''v''), GetItem (js ''k''), RemoveItem (js ''k''),
                      Clear, GetItem (js ''k'')] 7
          = (Inr [Undefined, Null, Undefined, Undefined, Null], 7))
   \<and> (case safeSessionStorage (server_env :: nat env) of
      Inl err \<Rightarrow> False
    | Inr ss \<Rightarrow>
        run_calls ss [SetItem (js ''k'') (js ''v''), GetItem (js ''k'')] 7
          = (Inr [Undefined, Null], 7))"
proof -
  have server: "\<not> window_defined (server_env :: nat env)"
    by (simp add: server_env_def)
  from safe_storage_inert_on_server [OF server] obtain ls ss where
    l: "safeLocalStorage (server_env :: nat env) = Inr ls" and
    s: "safeSessionStorage (server_env :: nat env) = Inr ss" and
    r: "\<And>calls w. run_calls ls calls w = (Inr (map inert_answer calls), w)"
       "\<And>calls w. run_calls ss calls w = (Inr (map inert_answer calls), w)"
    by blast
  show ?thesis
    by (simp only: l s r sum.case list.map inert_answer.simps simp_thms)
qed

section \<open>Security utilities\<close>

text \<open>
  Claim C6. Whenever \<open>window\<close> is undefined, \<open>sanitizeHtml\<close> returns its string argument
  unchanged, for every input string.
\<close>

theorem sanitizeHtml_identity_on_server:
  "\<not> window_defined e \<Longrightarrow> sanitizeHtml e html = html"
  by (simp add: sanitizeHtml_def)

theorem sanitizeHtml_identity_on_server_witness:
  "\<not> window_defined (server_env :: unit env)
   \<and> sanitizeHtml (server_env :: unit env) (js ''<img src=x onerror=alert(1)>'')
       = js ''<img src=x onerror=alert(1)>''"
  using sanitizeHtml_identity_on_server
    [of "server_env :: unit env" "js ''<img src=x onerror=alert(1)>''"]
  by (simp add: server_env_def)

text \<open>
  Claim C4 says that no utility throws, on the server as in the browser. On the server
  \<open>escapeHtml\<close> throws a \<open>ReferenceError\<close>: it reads \<open>document\<close>, which is not declared
  there, without the guard its neighbours \<open>sanitizeHtml\<close> and \<open>generateSecureToken\<close> have.
\<close>

theorem escapeHtml_throws_on_server:
  "escapeHtml (server_env :: unit env) (js ''a < b'') = Inl ReferenceError"
  by (simp add: escapeHtml_def server_env_def read_global_def)

subsection \<open>The matchers and the meaning of the patterns\<close>

lemma unat_lower_sub:
  "0x61 \<le> c \<Longrightarrow> unat (c - 0x20 :: code_unit) = unat c - 32"
proof -
  assume "0x61 \<le> c"
  then have "(0x20 :: code_unit) \<le> c" by (simp add: word_le_nat_alt)
  then show ?thesis using unat_sub [of "0x20" c] by simp
qed

lemma same_ignoring_case_iff:
  "same_ignoring_case a b \<longleftrightarrow> canonicalize a = canonicalize b"
proof
  show "same_ignoring_case a b \<Longrightarrow> canonicalize a = canonicalize b"
    unfolding same_ignoring_case_def canonicalize_def
    by (auto simp: word_le_nat_alt unat_word_ariths)
next
  assume eq: "canonicalize a = canonicalize b"
  have up: "0x41 \<le> c - 0x20 \<and> c - 0x20 \<le> 0x5A \<and> \<not> (0x61 \<le> c - 0x20) \<and> c = (c - 0x20) + 0x20"
    if "0x61 \<le> c" "c \<le> 0x7A" for c :: code_unit
    using that unat_lower_sub [OF that(1)] by (simp add: word_le_nat_alt, arith)
  show "same_ignoring_case a b"
  proof (cases "0x61 \<le> a \<and> a \<le> 0x7A")
    case la: True
    show ?thesis
    proof (cases "0x61 \<le> b \<and> b \<le> 0x7A")
      case True
      with la eq have "a - 0x20 = b - 0x20" by (simp add: canonicalize_def)
      then have "a = b" by simp
      then show ?thesis by (simp add: same_ignoring_case_def)
    next
      case False
      with la eq have "b = a - 0x20" by (simp add: canonicalize_def)
      with up [of a] la show ?thesis by (simp add: same_ignoring_case_def)
    qed
  next
    case na: False
    show ?thesis
    proof (cases "0x61 \<le> b \<and> b \<le> 0x7A")
      case True
      with na eq have "a = b - 0x20" by (auto simp add: canonicalize_def)
      with up [of b] True show ?thesis by (simp add: same_ignoring_case_def)
    next
      case False
      with na eq have "a = b" by (auto simp add: canonicalize_def)
      then show ?thesis by (simp add: same_ignoring_case_def)
    qed
  qed
qed

lemma space_not_word: "is_space c \<Longrightarrow> \<not> is_word_char c"
  unfolding is_space_def is_word_char_def
  by (auto simp: word_le_nat_alt)

lemma equals_not_word: "\<not> is_word_char 0x3D"
  by (simp add: is_word_char_def)

lemma equals_not_space: "\<not> is_space 0x3D"
  by (simp add: is_space_def)

lemma match_literal_same:
  "list_all2 same_ignoring_case mid pat \<Longrightarrow> match_literal pat (mid @ suf) = Some suf"
proof (induction mid pat rule: list_all2_induct)
  case Nil
  show ?case by simp
next
  case (Cons c mid p pat)
  then show ?case by (simp add: same_ignoring_case_iff)
qed

lemma match_literal_Some:
  "match_literal pat s = Some r \<Longrightarrow> \<exists>mid. s = mid @ r \<and> list_all2 same_ignoring_case mid pat"
proof (induction pat s rule: match_literal.induct)
  case (1 s)
  then show ?case by simp
next
  case (2 p ps)
  then show ?case by simp
next
  case (3 p ps c cs)
  from "3.prems" have eq: "canonicalize p = canonicalize c" and m: "match_literal ps cs = Some r"
    by (simp_all split: if_splits)
  from "3.IH" [OF eq m] obtain mid where "cs = mid @ r" "list_all2 same_ignoring_case mid ps"
    by blast
  then have "c # cs = (c # mid) @ r \<and> list_all2 same_ignoring_case (c # mid) (p # ps)"
    using eq by (simp add: same_ignoring_case_iff)
  then show ?case by blast
qed

lemma match_literal_iff:
  "match_literal pat s \<noteq> None \<longleftrightarrow>
     (\<exists>mid suf. s = mid @ suf \<and> list_all2 same_ignoring_case mid pat)"
proof
  assume "match_literal pat s \<noteq> None"
  then obtain r where "match_literal pat s = Some r" by blast
  from match_literal_Some [OF this]
  show "\<exists>mid suf. s = mid @ suf \<and> list_all2 same_ignoring_case mid pat"
    by blast
next
  assume "\<exists>mid suf. s = mid @ suf \<and> list_all2 same_ignoring_case mid pat"
  then obtain mid suf where "s = mid @ suf" "list_all2 same_ignoring_case mid pat" by blast
  then show "match_literal pat s \<noteq> None" by (simp add: match_literal_same)
qed

lemma regex_test_here: "m s \<Longrightarrow> regex_test m s"
  by (cases s) simp_all

lemma regex_test_suffix: "m s \<Longrightarrow> regex_test m (pre @ s)"
  by (induction pre) (simp_all add: regex_test_here)

lemma regex_test_iff: "regex_test m s \<longleftrightarrow> (\<exists>pre suf. s = pre @ suf \<and> m suf)"
proof
  show "regex_test m s \<Longrightarrow> \<exists>pre suf. s = pre @ suf \<and> m suf"
  proof (induction s)
    case Nil
    then show ?case by simp
  next
    case (Cons c cs)
    show ?case
    proof (cases "m (c # cs)")
      case True
      then have "c # cs = [] @ (c # cs) \<and> m (c # cs)" by simp
      then show ?thesis by blast
    next
      case False
      with Cons.prems have "regex_test m cs" by simp
      then obtain pre suf where "cs = pre @ suf" "m suf" using Cons.IH by blast
      then have "c # cs = (c # pre) @ suf \<and> m suf" by simp
      then show ?thesis by blast
    qed
  qed
next
  show "\<exists>pre suf. s = pre @ suf \<and> m suf \<Longrightarrow> regex_test m s"
    using regex_test_suffix by blast
qed

text \<open>A literal pattern is found by \<open>test\<close> exactly in the inputs that contain it in any letter case.\<close>

lemma regex_test_literal:
  "regex_test (\<lambda>s. match_literal pat s \<noteq> None) s \<longleftrightarrow> contains_ignoring_case s pat"
proof -
  have "regex_test (\<lambda>s. match_literal pat s \<noteq> None) s \<longleftrightarrow>
      (\<exists>pre suf. s = pre @ suf
         \<and> (\<exists>mid suf'. suf = mid @ suf' \<and> list_all2 same_ignoring_case mid pat))"
    by (simp only: regex_test_iff match_literal_iff)
  also have "\<dots> \<longleftrightarrow> (\<exists>pre mid suf. s = pre @ mid @ suf \<and> list_all2 same_ignoring_case mid pat)"
    by blast
  finally show ?thesis by (simp only: contains_ignoring_case_def)
qed

lemma regex_test_match_script:
  "regex_test match_script s \<longleftrightarrow> contains_ignoring_case s (js ''<script'')"
proof -
  have "match_script = (\<lambda>s. match_literal (js ''<script'') s \<noteq> None)"
    by (rule ext) (simp only: match_script_def)
  then have "regex_test match_script s \<longleftrightarrow>
      regex_test (\<lambda>s. match_literal (js ''<script'') s \<noteq> None) s"
    by (rule arg_cong)
  then show ?thesis by (simp only: regex_test_literal)
qed

text \<open>The longest-run matcher of the handler pattern accepts exactly the pattern's language.\<close>

lemma match_handler_language: "match_handler s \<longleftrightarrow> handler_language s"
proof
  assume mh: "match_handler s"
  then obtain r where on: "match_literal (js ''on'') s = Some r"
    by (cases "match_literal (js ''on'') s") (simp_all add: match_handler_def)
  define w where "w = takeWhile is_word_char r"
  define sp where "sp = takeWhile is_space (dropWhile is_word_char r)"
  define t where "t = dropWhile is_space (dropWhile is_word_char r)"
  from mh on have ws: "w \<noteq> []" and t: "case t of [] \<Rightarrow> False | c # _ \<Rightarrow> c = 0x3D"
    by (simp_all add: match_handler_def w_def t_def)
  from t obtain rest where t': "t = 0x3D # rest"
    by (cases t) simp_all
  from match_literal_Some [OF on] obtain mid where
    s: "s = mid @ r" and mid: "list_all2 same_ignoring_case mid (js ''on'')" by blast
  have "w @ sp @ [0x3D] @ rest = w @ sp @ t"
    by (simp add: t')
  also have "sp @ t = dropWhile is_word_char r"
    unfolding sp_def t_def by (rule takeWhile_dropWhile_id)
  also have "w @ dropWhile is_word_char r = r"
    unfolding w_def by (rule takeWhile_dropWhile_id)
  finally have r: "r = w @ sp @ [0x3D] @ rest" by (rule sym)
  have all: "list_all is_word_char w \<and> list_all is_space sp"
    by (auto simp: w_def sp_def list_all_iff dest: set_takeWhileD)
  have "s = mid @ w @ sp @ [0x3D] @ rest"
    unfolding s by (subst r) (rule refl)
  with mid ws all show "handler_language s"
    unfolding handler_language_def by blast
next
  assume "handler_language s"
  then obtain on1 w sp rest where
    s: "s = on1 @ w @ sp @ [0x3D] @ rest" and
    on1: "list_all2 same_ignoring_case on1 (js ''on'')" and
    w: "w \<noteq> []" "list_all is_word_char w" and sp: "list_all is_space sp"
    unfolding handler_language_def by blast
  have "match_literal (js ''on'') s = Some (w @ sp @ [0x3D] @ rest)"
    unfolding s by (rule match_literal_same [OF on1])
  then have m: "match_literal (js ''on'') s = Some (w @ sp @ 0x3D # rest)" by simp
  have tw: "takeWhile is_word_char (w @ sp @ 0x3D # rest) = w"
  proof -
    have "takeWhile is_word_char (sp @ 0x3D # rest) = []"
      using sp by (cases sp) (simp_all add: space_not_word equals_not_word)
    then show ?thesis using w(2) by (simp add: takeWhile_append2 list_all_iff)
  qed
  have dw: "dropWhile is_word_char (w @ sp @ 0x3D # rest) = sp @ 0x3D # rest"
  proof -
    have "dropWhile is_word_char (sp @ 0x3D # rest) = sp @ 0x3D # rest"
      using sp by (cases sp) (simp_all add: space_not_word equals_not_word)
    then show ?thesis using w(2) by (simp add: dropWhile_append2 list_all_iff)
  qed
  have ds: "dropWhile is_space (sp @ 0x3D # rest) = 0x3D # rest"
    using sp by (simp add: dropWhile_append2 list_all_iff equals_not_space)
  show "match_handler s"
    using w(1) by (simp only: match_handler_def m tw dw ds option.case list.case simp_thms)
qed

subsection \<open>\<open>validateInput\<close>\<close>

text \<open>
  Claim C1. For every string input and every \<open>maxLength\<close> (given, or the default 1000),
  \<open>validateInput\<close> returns false whenever the input contains the substring
  \<^verbatim>\<open><script\<close> in any letter case, returns false whenever the input's length exceeds
  \<open>maxLength\<close>, and returns false for the empty string.
\<close>

theorem validateInput_rejects:
  "(contains_ignoring_case input (js ''<script'') \<longrightarrow> \<not> validateInput input maxLengthArg)
   \<and> (real (length input) > (case maxLengthArg of None \<Rightarrow> 1000 | Some m \<Rightarrow> m) \<longrightarrow>
        \<not> validateInput input maxLengthArg)
   \<and> \<not> validateInput [] maxLengthArg"
proof (intro conjI impI)
  assume "contains_ignoring_case input (js ''<script'')"
  then have "regex_test match_script input"
    by (simp only: regex_test_match_script)
  then show "\<not> validateInput input maxLengthArg"
    by (simp add: validateInput_def maliciousPatterns_def Let_def)
qed (simp_all add: validateInput_def)

theorem validateInput_rejects_witness:
  "contains_ignoring_case (js ''x<ScRiPt>'') (js ''<script'')
   \<and> real (length (js ''x<ScRiPt>'')) > 3
   \<and> \<not> validateInput (js ''x<ScRiPt>'') (Some 3)
   \<and> \<not> validateInput (js ''x<ScRiPt>'') None
   \<and> \<not> validateInput (js '''') None"
proof -
  have "js ''x<ScRiPt>'' = js ''x'' @ js ''<ScRiPt'' @ js ''>''
        \<and> list_all2 same_ignoring_case (js ''<ScRiPt'') (js ''<script'')"
    by (simp add: js_def same_ignoring_case_def)
  then have c: "contains_ignoring_case (js ''x<ScRiPt>'') (js ''<script'')"
    unfolding contains_ignoring_case_def by blast
  have l: "real (length (js ''x<ScRiPt>'')) > (case Some 3 of None \<Rightarrow> 1000 | Some m \<Rightarrow> m)"
    by (simp add: js_def)
  have e: "js '''' = []"
    by (simp add: js_def)
  show ?thesis
    using c l validateInput_rejects [of "js ''x<ScRiPt>''" "Some 3"]
      validateInput_rejects [of "js ''x<ScRiPt>''" None]
    by (simp add: e)
qed

end
